theory Spec2Isabelle
  imports Complex_Main
begin

section \<open>Strings\<close>

text \<open>
  JavaScript strings are modelled as \<^typ>\<open>string\<close>, a list of characters, each character
  standing for a code unit below 256 (ASCII and the Latin-1 supplement). On these,
  \<open>toLowerCase\<close> maps A to Z, and the accented capitals U+00C0 to U+00DE other than the
  multiplication sign U+00D7, to the letter 32 places up, and leaves every other character
  alone; \<open>trim\<close> strips tab, line feed, vertical tab, form feed, carriage return, space
  and the no-break space U+00A0 from both ends. The handles that the content script
  extracts from profile links are ASCII.
\<close>

definition toLowerCase_char :: "char \<Rightarrow> char" where
  "toLowerCase_char c =
     (case map_of
        (zip (''ABCDEFGHIJKLMNOPQRSTUVWXYZ'' @
           [CHR 0xC0, CHR 0xC1, CHR 0xC2, CHR 0xC3, CHR 0xC4, CHR 0xC5, CHR 0xC6, CHR 0xC7,
            CHR 0xC8, CHR 0xC9, CHR 0xCA, CHR 0xCB, CHR 0xCC, CHR 0xCD, CHR 0xCE, CHR 0xCF,
            CHR 0xD0, CHR 0xD1, CHR 0xD2, CHR 0xD3, CHR 0xD4, CHR 0xD5, CHR 0xD6, CHR 0xD8,
            CHR 0xD9, CHR 0xDA, CHR 0xDB, CHR 0xDC, CHR 0xDD, CHR 0xDE])
          (''abcdefghijklmnopqrstuvwxyz'' @
           [CHR 0xE0, CHR 0xE1, CHR 0xE2, CHR 0xE3, CHR 0xE4, CHR 0xE5, CHR 0xE6, CHR 0xE7,
            CHR 0xE8, CHR 0xE9, CHR 0xEA, CHR 0xEB, CHR 0xEC, CHR 0xED, CHR 0xEE, CHR 0xEF,
            CHR 0xF0, CHR 0xF1, CHR 0xF2, CHR 0xF3, CHR 0xF4, CHR 0xF5, CHR 0xF6, CHR 0xF8,
            CHR 0xF9, CHR 0xFA, CHR 0xFB, CHR 0xFC, CHR 0xFD, CHR 0xFE])) c of
        Some d \<Rightarrow> d
      | None \<Rightarrow> c)"

definition toLowerCase :: "string \<Rightarrow> string" where
  "toLowerCase s = map toLowerCase_char s"

text \<open>
  \<open>s.replace(c, '')\<close> with a one-character string pattern: only the first occurrence of
  the pattern is replaced, wherever it stands in \<open>s\<close>.
\<close>

definition replace_first :: "char \<Rightarrow> string \<Rightarrow> string" where
  "replace_first c s = remove1 c s"

definition isWhiteSpace :: "char \<Rightarrow> bool" where
  "isWhiteSpace c =
     (c \<in> set [CHR 0x09, CHR 0x0A, CHR 0x0B, CHR 0x0C, CHR 0x0D, CHR 0x20, CHR 0xA0])"

definition trim :: "string \<Rightarrow> string" where
  "trim s = rev (dropWhile isWhiteSpace (rev (dropWhile isWhiteSpace s)))"

text \<open>\<open>xs.slice(-n)\<close>: the last \<open>n\<close> elements, or all of them when there are fewer.\<close>

definition slice_last :: "nat \<Rightarrow> 'a list \<Rightarrow> 'a list" where
  "slice_last n xs = drop (length xs - n) xs"

text \<open>\<open>xs.splice(i, 1)\<close> at an index inside the list: the element at \<open>i\<close> is taken out.\<close>

definition splice1 :: "nat \<Rightarrow> 'a list \<Rightarrow> 'a list" where
  "splice1 i xs = take i xs @ drop (Suc i) xs"


section \<open>The persisted key-value store\<close>

text \<open>
  The fields of a stored note are optional, as the properties of the JavaScript object
  are: \<open>None\<close> stands for a property that is absent (or \<open>null\<close> for \<open>scores\<close>). The
  legacy \<open>score\<close> property has three states, since the code tells \<open>undefined\<close> from
  \<open>null\<close>. Score values and timestamps are integers.
\<close>

record score_sample =
  s_value :: int
  s_timestamp :: int

datatype legacy_score = Undefined | Null | Score int

record note_data =
  nd_note :: "string option"
  nd_score :: legacy_score
  nd_scores :: "score_sample list option"
  nd_createdAt :: "int option"
  nd_updatedAt :: "int option"

type_synonym notes_map = "string \<rightharpoonup> note_data"

record log_entry =
  le_t :: int
  le_s :: string
  le_l :: string
  le_m :: string

text \<open>
  \<open>chrome.storage.local\<close>: the two keys the extension uses, whether an access succeeds
  (a failing access rejects, which the callers catch), and a count of the successful
  writes so that "nothing was written" can be told from "the same value was written".
\<close>

record storage =
  available :: bool
  stored_notes :: "notes_map option"
  stored_logs :: "log_entry list option"
  writes :: nat

datatype error = StorageUnavailable

definition storage_set_notes :: "notes_map \<Rightarrow> storage \<Rightarrow> error + storage" where
  "storage_set_notes v st =
     (if available st then Inr (st\<lparr>stored_notes := Some v, writes := writes st + 1\<rparr>)
      else Inl StorageUnavailable)"

definition storage_get_logs :: "storage \<Rightarrow> error + log_entry list option" where
  "storage_get_logs st = (if available st then Inr (stored_logs st) else Inl StorageUnavailable)"

definition storage_set_logs :: "log_entry list \<Rightarrow> storage \<Rightarrow> error + storage" where
  "storage_set_logs v st =
     (if available st then Inr (st\<lparr>stored_logs := Some v, writes := writes st + 1\<rparr>)
      else Inl StorageUnavailable)"


section \<open>The note store of the content script\<close>

definition normalizeUsername :: "string \<Rightarrow> string" where
  "normalizeUsername username = replace_first (CHR ''@'') (toLowerCase username)"

text \<open>\<open>noteData.updatedAt || Date.now()\<close>: an absent and a zero timestamp are both falsy.\<close>

definition updatedAt_or :: "int option \<Rightarrow> int \<Rightarrow> int" where
  "updatedAt_or u now = (case u of None \<Rightarrow> now | Some t \<Rightarrow> if t \<noteq> 0 then t else now)"

definition migrateNoteFormat :: "int \<Rightarrow> note_data \<Rightarrow> note_data" where
  "migrateNoteFormat now noteData =
     (let noteData1 =
        (if nd_score noteData \<noteq> Undefined \<and> nd_scores noteData = None
         then noteData\<lparr>
                nd_scores := Some (case nd_score noteData of
                    Score v \<Rightarrow>
                      [\<lparr>s_value = v, s_timestamp = updatedAt_or (nd_updatedAt noteData) now\<rparr>]
                  | _ \<Rightarrow> []),
                nd_score := Undefined\<rparr>
         else noteData)
      in if nd_scores noteData1 = None then noteData1\<lparr>nd_scores := Some []\<rparr> else noteData1)"

text \<open>
  The sample list of a note. After \<open>migrateNoteFormat\<close> the list is always present
  (lemma \<open>migrateNoteFormat_scores\<close> below), so the \<open>None\<close> case is never taken where
  \<open>saveNote\<close> reads it.
\<close>

definition scores_of :: "note_data \<Rightarrow> score_sample list" where
  "scores_of nd = (case nd_scores nd of None \<Rightarrow> [] | Some ss \<Rightarrow> ss)"

text \<open>
  The state of the content script: the in-memory cache \<open>notesCache\<close> and the store it
  writes to. Each operation takes the clock reading \<open>now\<close> of its \<open>Date.now()\<close> (the two
  readings inside one \<open>saveNote\<close> call are taken to be the same instant) and returns
  its boolean result with the new state. The cache is a plain map from handle to note.
\<close>

record ctx =
  notesCache :: notes_map
  store :: storage

definition commit :: "notes_map \<Rightarrow> ctx \<Rightarrow> bool \<times> ctx" where
  "commit cache c =
     (case storage_set_notes cache (store c) of
        Inr st \<Rightarrow> (True, \<lparr>notesCache = cache, store = st\<rparr>)
      | Inl e \<Rightarrow> (False, \<lparr>notesCache = cache, store = store c\<rparr>))"

definition saveNote :: "int \<Rightarrow> string \<Rightarrow> string \<Rightarrow> int option \<Rightarrow> ctx \<Rightarrow> bool \<times> ctx" where
  "saveNote now username noteText score c =
     (let nUsername = normalizeUsername username;
          entry0 = (case notesCache c nUsername of
                      None \<Rightarrow> \<lparr>nd_note = Some [], nd_score = Undefined, nd_scores = Some [],
                                 nd_createdAt = Some now, nd_updatedAt = Some now\<rparr>
                    | Some noteData \<Rightarrow> migrateNoteFormat now noteData);
          entry1 = entry0\<lparr>nd_note := Some (if noteText \<noteq> [] then trim noteText else [])\<rparr>;
          entry2 = (case score of
                      None \<Rightarrow> entry1
                    | Some v \<Rightarrow>
                        if 1 \<le> v \<and> v \<le> 5
                        then (let pushed = scores_of entry1 @ [\<lparr>s_value = v, s_timestamp = now\<rparr>]
                              in entry1\<lparr>nd_scores :=
                                   Some (if length pushed > 5 then slice_last 5 pushed else pushed)\<rparr>)
                        else entry1);
          entry3 = entry2\<lparr>nd_updatedAt := Some now\<rparr>;
          hasContent = (nd_note entry3 \<noteq> Some [] \<or> length (scores_of entry3) > 0)
      in commit (if hasContent then (notesCache c)(nUsername \<mapsto> entry3)
                 else (notesCache c)(nUsername := None)) c)"

definition deleteScoreAtIndex :: "int \<Rightarrow> string \<Rightarrow> int \<Rightarrow> ctx \<Rightarrow> bool \<times> ctx" where
  "deleteScoreAtIndex now username index c =
     (let nUsername = normalizeUsername username
      in case notesCache c nUsername of
           None \<Rightarrow> (False, c)
         | Some noteData \<Rightarrow>
            (case nd_scores noteData of
               None \<Rightarrow> (False, c)
             | Some ss \<Rightarrow>
                 if index < 0 \<or> int (length ss) \<le> index then (False, c)
                 else (let ss' = splice1 (nat index) ss;
                           noteData1 = noteData\<lparr>nd_scores := Some ss', nd_updatedAt := Some now\<rparr>;
                           hasContent = (nd_note noteData1 \<noteq> Some [] \<or> length ss' > 0)
                       in commit (if hasContent then (notesCache c)(nUsername \<mapsto> noteData1)
                                  else (notesCache c)(nUsername := None)) c)))"

text \<open>
  \<open>getAverageScore\<close>: \<open>Math.round(x)\<close> is \<open>\<lfloor>x + 1/2\<rfloor>\<close>, which is \<^const>\<open>round\<close>. The
  JavaScript numbers are IEEE doubles; the model computes in the rationals, which gives
  the decimal value the double result denotes for integer samples in lists of at most five
  (the quotient times ten is then exact or at least a sixth away from a rounding boundary).
\<close>

definition getAverageScore :: "string \<Rightarrow> ctx \<Rightarrow> rat option" where
  "getAverageScore username c =
     (let nUsername = normalizeUsername username
      in case notesCache c nUsername of
           None \<Rightarrow> None
         | Some noteData \<Rightarrow>
            (case nd_scores noteData of
               None \<Rightarrow> None
             | Some ss \<Rightarrow>
                 if length ss = 0 then None
                 else (let sum = foldl (\<lambda>acc s. acc + s_value s) 0 ss
                       in Some (of_int (round (of_int sum / of_nat (length ss) * (10::rat))) / 10))))"

definition getScores :: "string \<Rightarrow> ctx \<Rightarrow> score_sample list" where
  "getScores username c =
     (let nUsername = normalizeUsername username
      in case notesCache c nUsername of
           None \<Rightarrow> []
         | Some noteData \<Rightarrow> (case nd_scores noteData of None \<Rightarrow> [] | Some ss \<Rightarrow> ss))"

text \<open>
  \<open>noteData?.scores?.[index]\<close>, the guard of \<open>deleteScoreAtIndex\<close>: the sample stored for
  a handle at a position, if there is a record, a sample list and an element there.
\<close>

definition sample_at :: "ctx \<Rightarrow> string \<Rightarrow> int \<Rightarrow> score_sample option" where
  "sample_at c username index =
     (case notesCache c (normalizeUsername username) of
        None \<Rightarrow> None
      | Some noteData \<Rightarrow>
         (case nd_scores noteData of
            None \<Rightarrow> None
          | Some ss \<Rightarrow>
              if 0 \<le> index \<and> index < int (length ss) then Some (ss ! nat index) else None))"

text \<open>
  A run of the note store: each call comes with whether the store accepts the write at
  that moment and with its clock reading.
\<close>

datatype op = Upsert string string "int option" | DeleteSample string int

fun apply_op :: "int \<Rightarrow> op \<Rightarrow> ctx \<Rightarrow> bool \<times> ctx" where
  "apply_op now (Upsert username noteText score) c = saveNote now username noteText score c"
| "apply_op now (DeleteSample username index) c = deleteScoreAtIndex now username index c"

fun run :: "(bool \<times> int \<times> op) list \<Rightarrow> ctx \<Rightarrow> ctx" where
  "run [] c = c"
| "run ((ok, now, x) # rest) c =
     run rest (snd (apply_op now x (c\<lparr>store := (store c)\<lparr>available := ok\<rparr>\<rparr>)))"

definition empty_ctx :: ctx where
  "empty_ctx = \<lparr>notesCache = Map.empty,
                store = \<lparr>available = True, stored_notes = None, stored_logs = None, writes = 0\<rparr>\<rparr>"

text \<open>A record that holds something: a non-empty note text or at least one sample.\<close>

definition nonempty_record :: "note_data \<Rightarrow> bool" where
  "nonempty_record nd =
     ((case nd_note nd of None \<Rightarrow> False | Some n \<Rightarrow> n \<noteq> []) \<or>
      (case nd_scores nd of None \<Rightarrow> False | Some ss \<Rightarrow> ss \<noteq> []))"


text \<open>
  What \<open>saveNote\<close> creates and both mutations keep: the note text is present, and the
  record holds something.
\<close>

definition record_ok :: "note_data \<Rightarrow> bool" where
  "record_ok nd = (nd_note nd \<noteq> None \<and> nonempty_record nd)"


section \<open>The log pipeline\<close>

text \<open>
  An argument of \<open>xpnLog\<close>, by the case the formatter takes: \<open>null\<close>, \<open>undefined\<close>, an
  \<open>Error\<close> with its name and message, an object with its JSON text (or its \<open>String\<close>
  form when \<open>JSON.stringify\<close> throws), anything else with its \<open>String\<close> form.
\<close>

datatype log_arg =
  ArgNull | ArgUndefined | ArgError string string | ArgObject string | ArgOther string

fun format_arg :: "log_arg \<Rightarrow> string" where
  "format_arg ArgNull = ''null''"
| "format_arg ArgUndefined = ''undefined''"
| "format_arg (ArgError name message) = name @ '': '' @ message"
| "format_arg (ArgObject json) = json"
| "format_arg (ArgOther str) = str"

fun join :: "string \<Rightarrow> string list \<Rightarrow> string" where
  "join sep [] = []"
| "join sep [x] = x"
| "join sep (x # y # ys) = x @ sep @ join sep (y # ys)"

definition XPN_MAX_LOGS :: nat where
  "XPN_MAX_LOGS = 1000"

text \<open>
  The logger's module state. A timer handle is modelled by the instant at which the timer
  fires: \<open>flushTimeout = Some d\<close> is a pending \<open>setTimeout(flushLogs, 100)\<close> armed at
  \<open>d - 100\<close>, and \<open>None\<close> is the \<open>null\<close> handle. Console output is not part of the state.
\<close>

record logger =
  logQueue :: "log_entry list"
  flushTimeout :: "int option"
  isFlushing :: bool

definition xpnLog :: "int \<Rightarrow> string \<Rightarrow> string \<Rightarrow> log_arg list \<Rightarrow> logger \<Rightarrow> logger" where
  "xpnLog now source level args lg =
     (let message = join '' '' (map format_arg args);
          lg1 = lg\<lparr>logQueue := logQueue lg @ [\<lparr>le_t = now, le_s = source, le_l = level, le_m = message\<rparr>]\<rparr>
      in if flushTimeout lg1 = None then lg1\<lparr>flushTimeout := Some (now + 100)\<rparr> else lg1)"

text \<open>\<open>result[XPN_LOG_KEY] || []\<close>: the persisted log list, empty when the key is absent.\<close>

definition persisted_logs :: "storage \<Rightarrow> log_entry list" where
  "persisted_logs st = (case stored_logs st of None \<Rightarrow> [] | Some xs \<Rightarrow> xs)"

text \<open>
  \<open>flushLogs\<close> suspends at its two store accesses. \<open>during\<close> is what the other handlers of
  the same context do to the logger state meanwhile (new \<open>xpnLog\<close> calls, a timer firing),
  and \<open>fin\<close> is the clock when the \<open>finally\<close> block runs.
\<close>

definition flushLogs :: "(logger \<Rightarrow> logger) \<Rightarrow> int \<Rightarrow> logger \<Rightarrow> storage \<Rightarrow> logger \<times> storage" where
  "flushLogs during fin lg st =
     (let lg1 = lg\<lparr>flushTimeout := None\<rparr>
      in if length (logQueue lg1) = 0 \<or> isFlushing lg1 then (lg1, st)
         else
           (let toFlush = logQueue lg1;
                lg2 = lg1\<lparr>isFlushing := True, logQueue := []\<rparr>;
                st' = (case storage_get_logs st of
                         Inl e \<Rightarrow> st
                       | Inr result \<Rightarrow>
                          (let existing = (case result of None \<Rightarrow> [] | Some xs \<Rightarrow> xs);
                               combined = existing @ toFlush;
                               trimmed = (if length combined > XPN_MAX_LOGS
                                          then slice_last XPN_MAX_LOGS combined else combined)
                           in case storage_set_logs trimmed st of
                                Inl e \<Rightarrow> st
                              | Inr st1 \<Rightarrow> st1));
                lg3 = (during lg2)\<lparr>isFlushing := False\<rparr>
            in (if length (logQueue lg3) > 0 \<and> flushTimeout lg3 = None
                then lg3\<lparr>flushTimeout := Some (fin + 100)\<rparr> else lg3,
                st')))"

text \<open>
  The pending timer firing. \<open>setTimeout(flushLogs, 100)\<close> runs \<open>flushLogs\<close> once its
  instant is reached: by the clock reading \<open>now\<close> a timer due at \<open>d \<le> now\<close> has fired
  and its flush has completed, with nothing else touching the logger meanwhile; a timer
  due later is still pending.
\<close>

definition timer_fires :: "int \<Rightarrow> logger \<times> storage \<Rightarrow> logger \<times> storage" where
  "timer_fires now s =
     (case flushTimeout (fst s) of
        None \<Rightarrow> s
      | Some d \<Rightarrow> if d \<le> now then flushLogs (\<lambda>lg. lg) d (fst s) (snd s) else s)"

text \<open>
  A burst of \<open>xpnLog\<close> calls, each with its clock reading: before each call the timer
  fires if it is due by then.
\<close>

fun xpnLog_burst ::
  "(int \<times> string \<times> string \<times> log_arg list) list \<Rightarrow> logger \<times> storage \<Rightarrow> logger \<times> storage" where
  "xpnLog_burst [] s = s"
| "xpnLog_burst ((now, source, level, args) # rest) s =
     xpnLog_burst rest
       (xpnLog now source level args (fst (timer_fires now s)), snd (timer_fires now s))"


section \<open>Properties of the note store\<close>

subsection \<open>Handles\<close>

lemma toLowerCase_char_at: "toLowerCase_char c = CHR ''@'' \<longleftrightarrow> c = CHR ''@''"
  unfolding toLowerCase_char_def by (simp split: if_splits)

lemma toLowerCase_char_at': "CHR ''@'' = toLowerCase_char c \<longleftrightarrow> c = CHR ''@''"
  using toLowerCase_char_at [of c] by auto

lemma toLowerCase_char_idem: "toLowerCase_char (toLowerCase_char c) = toLowerCase_char c"
  unfolding toLowerCase_char_def by (simp split: if_splits)

lemma toLowerCase_idem: "toLowerCase (toLowerCase s) = toLowerCase s"
  by (simp add: toLowerCase_def toLowerCase_char_idem)

lemma set_toLowerCase_at: "CHR ''@'' \<in> set (toLowerCase s) \<longleftrightarrow> CHR ''@'' \<in> set s"
  by (induction s) (auto simp: toLowerCase_def toLowerCase_char_at toLowerCase_char_at')

lemma toLowerCase_remove1:
  "toLowerCase (remove1 (CHR ''@'') s) = remove1 (CHR ''@'') (toLowerCase s)"
  by (induction s) (simp_all add: toLowerCase_def toLowerCase_char_at toLowerCase_char_at')

lemma count_toLowerCase:
  "count_list (toLowerCase s) (CHR ''@'') = count_list s (CHR ''@'')"
  by (induction s) (simp_all add: toLowerCase_def toLowerCase_char_at)

lemma length_remove1_less: "c \<in> set s \<Longrightarrow> length (remove1 c s) < length s"
  by (induction s) auto

lemma remove1_fixed_iff: "remove1 c s = s \<longleftrightarrow> c \<notin> set s"
proof
  assume fixed: "remove1 c s = s"
  show "c \<notin> set s"
  proof
    assume "c \<in> set s"
    then have "length (remove1 c s) < length s" by (rule length_remove1_less)
    with fixed show False by simp
  qed
next
  assume "c \<notin> set s"
  then show "remove1 c s = s" by (rule remove1_idem)
qed

lemma notin_remove1_iff: "c \<notin> set (remove1 c s) \<longleftrightarrow> count_list s c \<le> 1"
  by (induction s) (auto simp: count_list_0_iff)

lemma remove1_first: "c \<notin> set xs \<Longrightarrow> remove1 c (xs @ c # ys) = xs @ ys"
  by (induction xs) auto

text \<open>
  C3. \<open>normalizeUsername\<close> lowercases its input and removes the first \<open>@\<close>, wherever it
  stands: a leading \<open>@\<close> when the handle has one, an inner one otherwise. Normalizing
  twice gives the same as normalizing once exactly for the inputs with at most one \<open>@\<close>.
\<close>

theorem normalizeUsername_idempotent_iff:
  "(normalizeUsername (normalizeUsername x) = normalizeUsername x
      \<longleftrightarrow> count_list x (CHR ''@'') \<le> 1) \<and>
   (CHR ''@'' \<notin> set xs \<longrightarrow>
      normalizeUsername (xs @ CHR ''@'' # ys) = toLowerCase xs @ toLowerCase ys) \<and>
   (CHR ''@'' \<notin> set x \<longrightarrow> normalizeUsername x = toLowerCase x)"
proof (intro conjI impI)
  let ?y = "toLowerCase x"
  have "normalizeUsername (normalizeUsername x) = remove1 (CHR ''@'') (remove1 (CHR ''@'') ?y)"
    by (simp add: normalizeUsername_def replace_first_def toLowerCase_remove1 toLowerCase_idem)
  then have "normalizeUsername (normalizeUsername x) = normalizeUsername x
      \<longleftrightarrow> CHR ''@'' \<notin> set (remove1 (CHR ''@'') ?y)"
    by (simp add: normalizeUsername_def replace_first_def remove1_fixed_iff)
  then show "normalizeUsername (normalizeUsername x) = normalizeUsername x
      \<longleftrightarrow> count_list x (CHR ''@'') \<le> 1"
    by (simp only: notin_remove1_iff count_toLowerCase)
next
  assume "CHR ''@'' \<notin> set xs"
  then have "CHR ''@'' \<notin> set (toLowerCase xs)" by (simp add: set_toLowerCase_at)
  then have "remove1 (CHR ''@'') (toLowerCase xs @ CHR ''@'' # toLowerCase ys)
      = toLowerCase xs @ toLowerCase ys"
    by (rule remove1_first)
  then show "normalizeUsername (xs @ CHR ''@'' # ys) = toLowerCase xs @ toLowerCase ys"
    by (simp add: normalizeUsername_def replace_first_def toLowerCase_def toLowerCase_char_def)
next
  assume "CHR ''@'' \<notin> set x"
  then have "CHR ''@'' \<notin> set (toLowerCase x)" by (simp add: set_toLowerCase_at)
  then show "normalizeUsername x = toLowerCase x"
    by (simp add: normalizeUsername_def replace_first_def remove1_idem)
qed

theorem normalizeUsername_idempotent_iff_witness:
  "count_list ''@Alice'' (CHR ''@'') \<le> 1 \<and>
   normalizeUsername (normalizeUsername ''@Alice'') = normalizeUsername ''@Alice'' \<and>
   normalizeUsername ''@Alice'' = ''alice'' \<and>
   CHR ''@'' \<notin> set ''Bo'' \<and>
   normalizeUsername ''Bo@B'' = ''bob'' \<and>
   CHR ''@'' \<notin> set ''Carol'' \<and>
   normalizeUsername ''Carol'' = ''carol''"
  using normalizeUsername_idempotent_iff [of "''@Alice''" "''Bo''" "''B''"]
    normalizeUsername_idempotent_iff [of "''Carol''" "[]" "''Alice''"]
  by (simp add: toLowerCase_def toLowerCase_char_def)

theorem normalizeUsername_not_idempotent:
  "normalizeUsername (normalizeUsername ''@@a'') \<noteq> normalizeUsername ''@@a''"
  by (simp add: normalizeUsername_def replace_first_def toLowerCase_def toLowerCase_char_def)


subsection \<open>Writing the cache back\<close>

lemma migrateNoteFormat_scores: "\<exists>ss. nd_scores (migrateNoteFormat now nd) = Some ss"
  by (auto simp: migrateNoteFormat_def Let_def)


lemma notesCache_commit: "notesCache (snd (commit cache c)) = cache"
  by (simp add: commit_def storage_set_notes_def)


lemma saveNote_other:
  "k \<noteq> normalizeUsername u \<Longrightarrow> notesCache (snd (saveNote now u tx sc c)) k = notesCache c k"
  by (simp add: saveNote_def Let_def notesCache_commit)

lemma saveNote_same:
  "notesCache (snd (saveNote now u tx sc c)) (normalizeUsername u) = Some nd \<Longrightarrow> record_ok nd"
  by (auto simp: saveNote_def Let_def notesCache_commit record_ok_def nonempty_record_def
        scores_of_def split: if_splits option.splits)

lemma deleteScoreAtIndex_other:
  "k \<noteq> normalizeUsername u \<Longrightarrow>
     notesCache (snd (deleteScoreAtIndex now u i c)) k = notesCache c k"
  by (simp add: deleteScoreAtIndex_def Let_def notesCache_commit split: option.splits)

lemma deleteScoreAtIndex_same:
  "notesCache (snd (deleteScoreAtIndex now u i c)) (normalizeUsername u) = Some nd \<Longrightarrow>
   (\<And>old. notesCache c (normalizeUsername u) = Some old \<Longrightarrow> record_ok old) \<Longrightarrow> record_ok nd"
  by (auto simp: deleteScoreAtIndex_def Let_def notesCache_commit record_ok_def nonempty_record_def
        split: if_splits option.splits)

lemma apply_op_cache_ok:
  assumes "\<forall>k nd. notesCache c k = Some nd \<longrightarrow> record_ok nd"
  shows "\<forall>k nd. notesCache (snd (apply_op now x c)) k = Some nd \<longrightarrow> record_ok nd"
proof (intro allI impI)
  fix k nd
  assume h: "notesCache (snd (apply_op now x c)) k = Some nd"
  show "record_ok nd"
  proof (cases x)
    case (Upsert u tx sc)
    show ?thesis
    proof (cases "k = normalizeUsername u")
      case True
      with h Upsert show ?thesis by (auto dest: saveNote_same)
    next
      case False
      with h Upsert assms show ?thesis by (simp add: saveNote_other)
    qed
  next
    case (DeleteSample u i)
    show ?thesis
    proof (cases "k = normalizeUsername u")
      case True
      with h DeleteSample assms show ?thesis by (auto dest: deleteScoreAtIndex_same)
    next
      case False
      with h DeleteSample assms show ?thesis by (simp add: deleteScoreAtIndex_other)
    qed
  qed
qed

text \<open>The persisted collection is always a snapshot of the cache, or what it was before.\<close>

lemma apply_op_stored:
  "stored_notes (store (snd (apply_op now x c))) = Some m \<Longrightarrow>
     m = notesCache (snd (apply_op now x c)) \<or> stored_notes (store c) = Some m"
  by (cases x)
     (auto simp: saveNote_def deleteScoreAtIndex_def Let_def commit_def storage_set_notes_def
        split: option.splits if_splits)

lemma run_ok:
  assumes "\<forall>k nd. notesCache c k = Some nd \<longrightarrow> record_ok nd"
    and "\<forall>m k nd. stored_notes (store c) = Some m \<longrightarrow> m k = Some nd \<longrightarrow> record_ok nd"
  shows "(\<forall>k nd. notesCache (run calls c) k = Some nd \<longrightarrow> record_ok nd) \<and>
         (\<forall>m k nd. stored_notes (store (run calls c)) = Some m \<longrightarrow> m k = Some nd
            \<longrightarrow> record_ok nd)"
  using assms
proof (induction calls arbitrary: c)
  case Nil
  then show ?case by simp
next
  case (Cons call calls)
  obtain ok now x where call: "call = (ok, now, x)" by (cases call)
  let ?c0 = "c\<lparr>store := (store c)\<lparr>available := ok\<rparr>\<rparr>"
  let ?c1 = "snd (apply_op now x ?c0)"
  from Cons.prems(1) have c0: "\<forall>k nd. notesCache ?c0 k = Some nd \<longrightarrow> record_ok nd" by simp
  have cache1: "\<forall>k nd. notesCache ?c1 k = Some nd \<longrightarrow> record_ok nd"
    by (rule apply_op_cache_ok [OF c0])
  have store1: "\<forall>m k nd. stored_notes (store ?c1) = Some m \<longrightarrow> m k = Some nd \<longrightarrow> record_ok nd"
  proof (intro allI impI)
    fix m k nd
    assume m: "stored_notes (store ?c1) = Some m" and k: "m k = Some nd"
    from apply_op_stored [OF m] show "record_ok nd"
    proof
      assume "m = notesCache ?c1"
      with k cache1 show ?thesis by blast
    next
      assume "stored_notes (store ?c0) = Some m"
      then have "stored_notes (store c) = Some m" by simp
      with k Cons.prems(2) show ?thesis by blast
    qed
  qed
  from Cons.IH [OF cache1 store1] show ?case by (simp add: call)
qed

text \<open>
  C2. After any sequence of \<open>saveNote\<close> and \<open>deleteScoreAtIndex\<close> calls from the empty
  collection, whatever the clock readings and whether or not each write reaches the
  store, every record in the cache and every record in the persisted collection has a
  non-empty note or a non-empty sample list. \<open>saveNote\<close> with empty text and no score for
  a handle without a record leaves the cache as it was, and deleting the only sample of a
  record with empty note text removes the record.
\<close>

theorem records_never_empty:
  "(notesCache (run calls empty_ctx) k = Some nd \<longrightarrow> nonempty_record nd) \<and>
   (stored_notes (store (run calls empty_ctx)) = Some m \<and> m k = Some nd'
      \<longrightarrow> nonempty_record nd') \<and>
   (notesCache c (normalizeUsername u) = None \<longrightarrow>
      notesCache (snd (saveNote now u [] None c)) = notesCache c) \<and>
   (notesCache c (normalizeUsername u) = Some old \<and> nd_note old = Some [] \<and>
    nd_scores old = Some [smp]
      \<longrightarrow> notesCache (snd (deleteScoreAtIndex now u 0 c)) (normalizeUsername u) = None)"
proof -
  have "\<forall>k nd. notesCache empty_ctx k = Some nd \<longrightarrow> record_ok nd"
    and "\<forall>m k nd. stored_notes (store empty_ctx) = Some m \<longrightarrow> m k = Some nd \<longrightarrow> record_ok nd"
    by (simp_all add: empty_ctx_def)
  from run_ok [OF this, of calls]
  have 1: "notesCache (run calls empty_ctx) k = Some nd \<longrightarrow> nonempty_record nd"
    and 2: "stored_notes (store (run calls empty_ctx)) = Some m \<and> m k = Some nd'
      \<longrightarrow> nonempty_record nd'"
    by (auto simp: record_ok_def)
  have 3: "notesCache c (normalizeUsername u) = None \<longrightarrow>
      notesCache (snd (saveNote now u [] None c)) = notesCache c"
    by (auto simp: saveNote_def Let_def notesCache_commit scores_of_def)
  have 4: "notesCache c (normalizeUsername u) = Some old \<and> nd_note old = Some [] \<and>
      nd_scores old = Some [smp]
      \<longrightarrow> notesCache (snd (deleteScoreAtIndex now u 0 c)) (normalizeUsername u) = None"
    by (auto simp: deleteScoreAtIndex_def Let_def notesCache_commit splice1_def)
  from 1 2 3 4 show ?thesis by blast
qed


text \<open>The definitions that a run of the note store unfolds to at a concrete input.\<close>

lemmas note_store_defs = saveNote_def deleteScoreAtIndex_def commit_def storage_set_notes_def
  Let_def empty_ctx_def normalizeUsername_def replace_first_def toLowerCase_def
  toLowerCase_char_def scores_of_def slice_last_def splice1_def trim_def isWhiteSpace_def
  migrateNoteFormat_def updatedAt_or_def

theorem records_never_empty_witness:
  "notesCache (run [(True, 10, Upsert ''@Bob'' [] (Some 4)), (False, 20, Upsert ''Al'' '' hi '' None),
                    (True, 30, DeleteSample ''bob'' 0)] empty_ctx) ''al''
     = Some \<lparr>nd_note = Some ''hi'', nd_score = Undefined, nd_scores = Some [],
              nd_createdAt = Some 20, nd_updatedAt = Some 20\<rparr> \<and>
   nonempty_record \<lparr>nd_note = Some ''hi'', nd_score = Undefined, nd_scores = Some [],
              nd_createdAt = Some 20, nd_updatedAt = Some 20\<rparr> \<and>
   stored_notes (store (run [(True, 10, Upsert ''@Bob'' [] (Some 4)), (False, 20, Upsert ''Al'' '' hi '' None),
                    (True, 30, DeleteSample ''bob'' 0)] empty_ctx))
     = Some (notesCache (run [(True, 10, Upsert ''@Bob'' [] (Some 4)), (False, 20, Upsert ''Al'' '' hi '' None),
                    (True, 30, DeleteSample ''bob'' 0)] empty_ctx)) \<and>
   notesCache empty_ctx (normalizeUsername ''carol'') = None \<and>
   notesCache (snd (saveNote 5 ''carol'' [] None empty_ctx)) = notesCache empty_ctx \<and>
   notesCache (run [(True, 10, Upsert ''@Bob'' [] (Some 4))] empty_ctx) (normalizeUsername ''bob'')
     = Some \<lparr>nd_note = Some [], nd_score = Undefined,
              nd_scores = Some [\<lparr>s_value = 4, s_timestamp = 10\<rparr>],
              nd_createdAt = Some 10, nd_updatedAt = Some 10\<rparr> \<and>
   notesCache (snd (deleteScoreAtIndex 30 ''bob'' 0
       (run [(True, 10, Upsert ''@Bob'' [] (Some 4))] empty_ctx))) (normalizeUsername ''bob'') = None"
  using records_never_empty [where calls = "[(True, 10, Upsert ''@Bob'' [] (Some 4)),
        (False, 20, Upsert ''Al'' '' hi '' None), (True, 30, DeleteSample ''bob'' 0)]"
      and k = "''al''"
      and nd = "\<lparr>nd_note = Some ''hi'', nd_score = Undefined, nd_scores = Some [],
              nd_createdAt = Some 20, nd_updatedAt = Some 20\<rparr>"
      and m = "notesCache (run [(True, 10, Upsert ''@Bob'' [] (Some 4)),
        (False, 20, Upsert ''Al'' '' hi '' None), (True, 30, DeleteSample ''bob'' 0)] empty_ctx)"
      and nd' = "\<lparr>nd_note = Some ''hi'', nd_score = Undefined, nd_scores = Some [],
              nd_createdAt = Some 20, nd_updatedAt = Some 20\<rparr>"
      and c = empty_ctx and u = "''carol''" and now = 5]
    records_never_empty [where calls = "[]" and c = "run [(True, 10, Upsert ''@Bob'' [] (Some 4))] empty_ctx"
      and u = "''bob''" and now = 30
      and old = "\<lparr>nd_note = Some [], nd_score = Undefined,
              nd_scores = Some [\<lparr>s_value = 4, s_timestamp = 10\<rparr>],
              nd_createdAt = Some 10, nd_updatedAt = Some 10\<rparr>"
      and smp = "\<lparr>s_value = 4, s_timestamp = 10\<rparr>"]
  by (simp add: note_store_defs nonempty_record_def)

subsection \<open>The five most recent samples\<close>

text \<open>
  C1. For a handle without a record, six sequential \<open>saveNote\<close> calls with empty text
  and the scores 1, 2, 3, 4, 5, 6 leave the sample list \<open>[1, 2, 3, 4, 5]\<close>, each sample
  with the clock reading of its call: the sixth score is outside 1..5 and is not appended.
  Six scores that are all within 1..5 leave the last five of them, in order.
\<close>

theorem six_upserts_keep_five:
  "(notesCache c (normalizeUsername u) = None \<longrightarrow>
     getScores u (run [(a1, t1, Upsert u [] (Some 1)), (a2, t2, Upsert u [] (Some 2)),
                       (a3, t3, Upsert u [] (Some 3)), (a4, t4, Upsert u [] (Some 4)),
                       (a5, t5, Upsert u [] (Some 5)), (a6, t6, Upsert u [] (Some 6))] c) =
       [\<lparr>s_value = 1, s_timestamp = t1\<rparr>, \<lparr>s_value = 2, s_timestamp = t2\<rparr>,
        \<lparr>s_value = 3, s_timestamp = t3\<rparr>, \<lparr>s_value = 4, s_timestamp = t4\<rparr>,
        \<lparr>s_value = 5, s_timestamp = t5\<rparr>]) \<and>
   (notesCache c (normalizeUsername u) = None \<and>
    list_all (\<lambda>v. 1 \<le> v \<and> v \<le> 5) [v1, v2, v3, v4, v5, v6] \<longrightarrow>
     getScores u (run [(a1, t1, Upsert u [] (Some v1)), (a2, t2, Upsert u [] (Some v2)),
                       (a3, t3, Upsert u [] (Some v3)), (a4, t4, Upsert u [] (Some v4)),
                       (a5, t5, Upsert u [] (Some v5)), (a6, t6, Upsert u [] (Some v6))] c) =
       [\<lparr>s_value = v2, s_timestamp = t2\<rparr>, \<lparr>s_value = v3, s_timestamp = t3\<rparr>,
        \<lparr>s_value = v4, s_timestamp = t4\<rparr>, \<lparr>s_value = v5, s_timestamp = t5\<rparr>,
        \<lparr>s_value = v6, s_timestamp = t6\<rparr>])"
  by (simp add: getScores_def saveNote_def Let_def notesCache_commit scores_of_def slice_last_def
        migrateNoteFormat_def)

theorem six_upserts_keep_five_witness:
  "notesCache empty_ctx (normalizeUsername ''@Bob'') = None \<and>
   getScores ''@Bob'' (run [(True, 11, Upsert ''@Bob'' [] (Some 1)), (True, 12, Upsert ''@Bob'' [] (Some 2)),
                       (True, 13, Upsert ''@Bob'' [] (Some 3)), (True, 14, Upsert ''@Bob'' [] (Some 4)),
                       (True, 15, Upsert ''@Bob'' [] (Some 5)), (True, 16, Upsert ''@Bob'' [] (Some 6))] empty_ctx) =
       [\<lparr>s_value = 1, s_timestamp = 11\<rparr>, \<lparr>s_value = 2, s_timestamp = 12\<rparr>,
        \<lparr>s_value = 3, s_timestamp = 13\<rparr>, \<lparr>s_value = 4, s_timestamp = 14\<rparr>,
        \<lparr>s_value = 5, s_timestamp = 15\<rparr>] \<and>
   list_all (\<lambda>v. 1 \<le> v \<and> v \<le> 5) [5, 4, 3, 2, 1, 2 :: int] \<and>
   getScores ''@Bob'' (run [(True, 11, Upsert ''@Bob'' [] (Some 5)), (True, 12, Upsert ''@Bob'' [] (Some 4)),
                       (True, 13, Upsert ''@Bob'' [] (Some 3)), (True, 14, Upsert ''@Bob'' [] (Some 2)),
                       (True, 15, Upsert ''@Bob'' [] (Some 1)), (True, 16, Upsert ''@Bob'' [] (Some 2))] empty_ctx) =
       [\<lparr>s_value = 4, s_timestamp = 12\<rparr>, \<lparr>s_value = 3, s_timestamp = 13\<rparr>,
        \<lparr>s_value = 2, s_timestamp = 14\<rparr>, \<lparr>s_value = 1, s_timestamp = 15\<rparr>,
        \<lparr>s_value = 2, s_timestamp = 16\<rparr>]"
  using six_upserts_keep_five [where c = empty_ctx and u = "''@Bob''" and ?a1.0 = True and ?a2.0 = True
      and ?a3.0 = True and ?a4.0 = True and ?a5.0 = True and ?a6.0 = True
      and ?t1.0 = 11 and ?t2.0 = 12 and ?t3.0 = 13 and ?t4.0 = 14 and ?t5.0 = 15 and ?t6.0 = 16
      and ?v1.0 = 5 and ?v2.0 = 4 and ?v3.0 = 3 and ?v4.0 = 2 and ?v5.0 = 1 and ?v6.0 = 2]
  by (simp add: empty_ctx_def)

theorem six_upserts_drop_the_sixth:
  "map s_value
     (getScores ''bob''
        (run [(True, 1, Upsert ''bob'' [] (Some 1)), (True, 2, Upsert ''bob'' [] (Some 2)),
              (True, 3, Upsert ''bob'' [] (Some 3)), (True, 4, Upsert ''bob'' [] (Some 4)),
              (True, 5, Upsert ''bob'' [] (Some 5)), (True, 6, Upsert ''bob'' [] (Some 6))]
           empty_ctx))
     \<noteq> [2, 3, 4, 5, 6]"
  by (simp add: getScores_def note_store_defs)

subsection \<open>Deleting a sample that is not there\<close>

text \<open>
  C9. \<open>deleteScoreAtIndex\<close> for a handle without a record, for a record without a
  sample list, or at an index where the list has no element (negative, or at or past its
  length) returns \<open>false\<close> and leaves the whole state as it was: the cache, every
  \<open>updatedAt\<close>, the persisted collection and the count of store writes.
\<close>

theorem deleteScoreAtIndex_no_sample:
  "sample_at c u i = None \<Longrightarrow> deleteScoreAtIndex now u i c = (False, c)"
  by (auto simp: sample_at_def deleteScoreAtIndex_def Let_def split: option.splits if_splits)

theorem deleteScoreAtIndex_no_sample_witness:
  "sample_at empty_ctx ''ghost'' 0 = None \<and>
   deleteScoreAtIndex 7 ''ghost'' 0 empty_ctx = (False, empty_ctx) \<and>
   sample_at (run [(True, 10, Upsert ''@Bob'' ''met'' (Some 4))] empty_ctx) ''bob'' (- 1) = None \<and>
   deleteScoreAtIndex 7 ''bob'' (- 1) (run [(True, 10, Upsert ''@Bob'' ''met'' (Some 4))] empty_ctx)
     = (False, run [(True, 10, Upsert ''@Bob'' ''met'' (Some 4))] empty_ctx) \<and>
   sample_at (run [(True, 10, Upsert ''@Bob'' ''met'' (Some 4))] empty_ctx) ''bob'' 1 = None \<and>
   deleteScoreAtIndex 7 ''bob'' 1 (run [(True, 10, Upsert ''@Bob'' ''met'' (Some 4))] empty_ctx)
     = (False, run [(True, 10, Upsert ''@Bob'' ''met'' (Some 4))] empty_ctx)"
proof -
  have 1: "sample_at empty_ctx ''ghost'' 0 = None"
    by (simp add: sample_at_def empty_ctx_def)
  have 2: "sample_at (run [(True, 10, Upsert ''@Bob'' ''met'' (Some 4))] empty_ctx) ''bob'' (- 1) = None"
    by (simp add: sample_at_def note_store_defs)
  have 3: "sample_at (run [(True, 10, Upsert ''@Bob'' ''met'' (Some 4))] empty_ctx) ''bob'' 1 = None"
    by (simp add: sample_at_def note_store_defs)
  from 1 2 3 deleteScoreAtIndex_no_sample [OF 1, of 7] deleteScoreAtIndex_no_sample [OF 2, of 7]
    deleteScoreAtIndex_no_sample [OF 3, of 7]
  show ?thesis by simp
qed

subsection \<open>The average\<close>

lemma foldl_sum: "foldl (\<lambda>acc s. acc + s_value s) a ss = a + sum_list (map s_value ss)"
  by (induction ss arbitrary: a) simp_all

lemma round_tenth:
  fixes x :: rat
  shows "x - 1 / 20 < of_int (round (x * 10)) / 10 \<and> of_int (round (x * 10)) / 10 \<le> x + 1 / 20"
proof -
  have "x * 10 - 1 / 2 < of_int (round (x * 10))" by (rule of_int_round_gt)
  moreover have "of_int (round (x * 10)) \<le> x * 10 + 1 / 2" by (rule of_int_round_le)
  ultimately show ?thesis by simp
qed

text \<open>
  C6. \<open>getAverageScore\<close> returns \<open>null\<close> (here \<open>None\<close>) when the handle has no record or
  no samples. Otherwise it returns the mean of the sample values rounded to one decimal
  place: a number of tenths \<open>k / 10\<close> within a twentieth of the mean, the tie going up.
  After \<open>saveNote\<close> with the scores 4, 5 and 3 for a handle without a record it returns 4.
\<close>

theorem getAverageScore_mean:
  "(getScores u c = [] \<longrightarrow> getAverageScore u c = None) \<and>
   (getScores u c \<noteq> [] \<longrightarrow>
      (\<exists>k. getAverageScore u c = Some (of_int k / 10) \<and>
        of_int (sum_list (map s_value (getScores u c))) / of_nat (length (getScores u c)) - 1 / 20
          < (of_int k / 10 :: rat) \<and>
        (of_int k / 10 :: rat)
          \<le> of_int (sum_list (map s_value (getScores u c))) / of_nat (length (getScores u c)) + 1 / 20)) \<and>
   (notesCache c (normalizeUsername u) = None \<longrightarrow>
      getAverageScore u (run [(a1, t1, Upsert u [] (Some 4)), (a2, t2, Upsert u [] (Some 5)),
                              (a3, t3, Upsert u [] (Some 3))] c) = Some 4)"
proof -
  let ?ss = "getScores u c"
  let ?mean = "of_int (sum_list (map s_value ?ss)) / of_nat (length ?ss) :: rat"
  have none: "?ss = [] \<longrightarrow> getAverageScore u c = None"
    by (auto simp: getScores_def getAverageScore_def Let_def split: option.splits)
  have some: "?ss \<noteq> [] \<longrightarrow>
      (\<exists>k. getAverageScore u c = Some (of_int k / 10) \<and> ?mean - 1 / 20 < of_int k / 10 \<and>
        of_int k / 10 \<le> ?mean + 1 / 20)"
  proof
    assume "?ss \<noteq> []"
    then have "getAverageScore u c = Some (of_int (round (?mean * 10)) / 10)"
      by (auto simp: getScores_def getAverageScore_def Let_def foldl_sum split: option.splits)
    with round_tenth [of ?mean]
    show "\<exists>k. getAverageScore u c = Some (of_int k / 10) \<and> ?mean - 1 / 20 < of_int k / 10 \<and>
        of_int k / 10 \<le> ?mean + 1 / 20"
      by blast
  qed
  have example: "notesCache c (normalizeUsername u) = None \<longrightarrow>
      getAverageScore u (run [(a1, t1, Upsert u [] (Some 4)), (a2, t2, Upsert u [] (Some 5)),
                              (a3, t3, Upsert u [] (Some 3))] c) = Some 4"
    by (simp add: getAverageScore_def saveNote_def Let_def notesCache_commit scores_of_def
          migrateNoteFormat_def)
  from none some example show ?thesis by (intro conjI)
qed

theorem getAverageScore_mean_witness:
  "getScores ''bob'' empty_ctx = [] \<and>
   getAverageScore ''bob'' empty_ctx = None \<and>
   getScores ''bob'' (run [(True, 1, Upsert ''bob'' [] (Some 4)), (True, 2, Upsert ''bob'' [] (Some 5)),
                           (True, 3, Upsert ''bob'' [] (Some 5))] empty_ctx) \<noteq> [] \<and>
   getAverageScore ''bob'' (run [(True, 1, Upsert ''bob'' [] (Some 4)), (True, 2, Upsert ''bob'' [] (Some 5)),
                           (True, 3, Upsert ''bob'' [] (Some 5))] empty_ctx) = Some (47 / 10) \<and>
   notesCache empty_ctx (normalizeUsername ''bob'') = None \<and>
   getAverageScore ''bob'' (run [(True, 1, Upsert ''bob'' [] (Some 4)), (True, 2, Upsert ''bob'' [] (Some 5)),
                           (True, 3, Upsert ''bob'' [] (Some 3))] empty_ctx) = Some 4"
  using getAverageScore_mean [where u = "''bob''" and c = empty_ctx
      and ?a1.0 = True and ?a2.0 = True and ?a3.0 = True and ?t1.0 = 1 and ?t2.0 = 2 and ?t3.0 = 3]
    getAverageScore_mean [where u = "''bob''"
      and c = "run [(True, 1, Upsert ''bob'' [] (Some 4)), (True, 2, Upsert ''bob'' [] (Some 5)),
                    (True, 3, Upsert ''bob'' [] (Some 5))] empty_ctx"]
  by (simp add: note_store_defs getScores_def getAverageScore_def round_def)

subsection \<open>Migration\<close>

text \<open>
  C7. \<open>migrateNoteFormat\<close> lifts a legacy record with \<open>score: 4\<close> (or any other score
  value) and a non-zero \<open>updatedAt: T\<close> to the record with
  \<open>scores: [{value: 4, timestamp: T}]\<close> and no \<open>score\<close>, every other field kept. When
  \<open>updatedAt\<close> is zero or absent the sample's timestamp is the clock reading instead. A
  legacy \<open>null\<close> score, and a record with neither field, get the empty list. A record
  that has a sample list is returned unchanged, and migrating a second time, at any later
  clock reading, changes nothing, for every record.
\<close>

theorem migrateNoteFormat_lifts:
  "(T \<noteq> 0 \<longrightarrow>
      migrateNoteFormat now \<lparr>nd_note = n, nd_score = Score v, nd_scores = None,
                              nd_createdAt = cr, nd_updatedAt = Some T\<rparr> =
        \<lparr>nd_note = n, nd_score = Undefined,
         nd_scores = Some [\<lparr>s_value = v, s_timestamp = T\<rparr>],
         nd_createdAt = cr, nd_updatedAt = Some T\<rparr>) \<and>
   migrateNoteFormat now \<lparr>nd_note = n, nd_score = Score v, nd_scores = None,
                           nd_createdAt = cr, nd_updatedAt = Some 0\<rparr> =
     \<lparr>nd_note = n, nd_score = Undefined,
      nd_scores = Some [\<lparr>s_value = v, s_timestamp = now\<rparr>],
      nd_createdAt = cr, nd_updatedAt = Some 0\<rparr> \<and>
   migrateNoteFormat now \<lparr>nd_note = n, nd_score = Score v, nd_scores = None,
                           nd_createdAt = cr, nd_updatedAt = None\<rparr> =
     \<lparr>nd_note = n, nd_score = Undefined,
      nd_scores = Some [\<lparr>s_value = v, s_timestamp = now\<rparr>],
      nd_createdAt = cr, nd_updatedAt = None\<rparr> \<and>
   migrateNoteFormat now \<lparr>nd_note = n, nd_score = Null, nd_scores = None,
                           nd_createdAt = cr, nd_updatedAt = up\<rparr> =
     \<lparr>nd_note = n, nd_score = Undefined, nd_scores = Some [],
      nd_createdAt = cr, nd_updatedAt = up\<rparr> \<and>
   migrateNoteFormat now \<lparr>nd_note = n, nd_score = Undefined, nd_scores = None,
                           nd_createdAt = cr, nd_updatedAt = up\<rparr> =
     \<lparr>nd_note = n, nd_score = Undefined, nd_scores = Some [],
      nd_createdAt = cr, nd_updatedAt = up\<rparr> \<and>
   (nd_scores nd \<noteq> None \<longrightarrow> migrateNoteFormat now nd = nd) \<and>
   migrateNoteFormat now' (migrateNoteFormat now nd) = migrateNoteFormat now nd"
  by (auto simp: migrateNoteFormat_def Let_def updatedAt_or_def)

theorem migrateNoteFormat_lifts_witness:
  "(1000::int) \<noteq> 0 \<and>
   migrateNoteFormat 5 \<lparr>nd_note = None, nd_score = Score 4, nd_scores = None,
                         nd_createdAt = None, nd_updatedAt = Some 1000\<rparr> =
     \<lparr>nd_note = None, nd_score = Undefined,
      nd_scores = Some [\<lparr>s_value = 4, s_timestamp = 1000\<rparr>],
      nd_createdAt = None, nd_updatedAt = Some 1000\<rparr> \<and>
   migrateNoteFormat 5 \<lparr>nd_note = None, nd_score = Score 4, nd_scores = None,
                         nd_createdAt = None, nd_updatedAt = Some 0\<rparr> =
     \<lparr>nd_note = None, nd_score = Undefined,
      nd_scores = Some [\<lparr>s_value = 4, s_timestamp = 5\<rparr>],
      nd_createdAt = None, nd_updatedAt = Some 0\<rparr> \<and>
   nd_scores \<lparr>nd_note = None, nd_score = Undefined,
      nd_scores = Some [\<lparr>s_value = 4, s_timestamp = 1000\<rparr>],
      nd_createdAt = None, nd_updatedAt = Some 1000\<rparr> \<noteq> None \<and>
   migrateNoteFormat 9 \<lparr>nd_note = None, nd_score = Undefined,
      nd_scores = Some [\<lparr>s_value = 4, s_timestamp = 1000\<rparr>],
      nd_createdAt = None, nd_updatedAt = Some 1000\<rparr> =
     \<lparr>nd_note = None, nd_score = Undefined,
      nd_scores = Some [\<lparr>s_value = 4, s_timestamp = 1000\<rparr>],
      nd_createdAt = None, nd_updatedAt = Some 1000\<rparr>"
  using migrateNoteFormat_lifts [where T = 1000 and now = 5 and n = None and cr = None and v = 4]
    migrateNoteFormat_lifts [where now = 9
      and nd = "\<lparr>nd_note = None, nd_score = Undefined,
        nd_scores = Some [\<lparr>s_value = 4, s_timestamp = 1000\<rparr>],
        nd_createdAt = None, nd_updatedAt = Some 1000\<rparr>"]
  by simp

theorem migrateNoteFormat_zero_timestamp:
  "migrateNoteFormat 1700000000000
      \<lparr>nd_note = None, nd_score = Score 4, nd_scores = None,
       nd_createdAt = None, nd_updatedAt = Some 0\<rparr>
    = \<lparr>nd_note = None, nd_score = Undefined,
       nd_scores = Some [\<lparr>s_value = 4, s_timestamp = 1700000000000\<rparr>],
       nd_createdAt = None, nd_updatedAt = Some 0\<rparr> \<and>
   nd_scores (migrateNoteFormat 1700000000000
      \<lparr>nd_note = None, nd_score = Score 4, nd_scores = None,
       nd_createdAt = None, nd_updatedAt = Some 0\<rparr>)
    \<noteq> Some [\<lparr>s_value = 4, s_timestamp = 0\<rparr>]"
  by (simp add: migrateNoteFormat_def Let_def updatedAt_or_def)

subsection \<open>A score outside 1..5\<close>





section \<open>Properties of the log pipeline\<close>

subsection \<open>The flush timer\<close>

lemma flushTimeout_xpnLog:
  "flushTimeout (xpnLog now source level args lg) =
     (case flushTimeout lg of None \<Rightarrow> Some (now + 100) | Some d \<Rightarrow> Some d)"
  by (simp add: xpnLog_def Let_def split: option.splits)

lemma logQueue_xpnLog:
  "map le_t (logQueue (xpnLog now source level args lg)) = map le_t (logQueue lg) @ [now]"
  by (simp add: xpnLog_def Let_def)

lemma timer_fires_pending:
  "flushTimeout lg = Some d \<Longrightarrow> now < d \<Longrightarrow> timer_fires now (lg, st) = (lg, st)"
  by (simp add: timer_fires_def)

lemma timer_fires_none:
  "flushTimeout lg = None \<Longrightarrow> timer_fires now (lg, st) = (lg, st)"
  by (simp add: timer_fires_def)

lemma flushTimeout_flushLogs_id:
  "flushTimeout (fst (flushLogs (\<lambda>lg. lg) fin lg st)) = None"
  by (simp add: flushLogs_def Let_def)

lemma timer_fires_due:
  "flushTimeout lg = Some d \<Longrightarrow> d \<le> now \<Longrightarrow> flushTimeout (fst (timer_fires now (lg, st))) = None"
  by (simp add: timer_fires_def flushTimeout_flushLogs_id)

lemma xpnLog_burst_pending:
  "flushTimeout lg = Some d \<Longrightarrow> list_all (\<lambda>call. fst call < d) calls \<Longrightarrow>
     snd (xpnLog_burst calls (lg, st)) = st \<and>
     flushTimeout (fst (xpnLog_burst calls (lg, st))) = Some d \<and>
     map le_t (logQueue (fst (xpnLog_burst calls (lg, st)))) = map le_t (logQueue lg) @ map fst calls"
proof (induction calls arbitrary: lg)
  case Nil
  then show ?case by simp
next
  case (Cons call calls)
  obtain now source level args where call: "call = (now, source, level, args)"
    by (cases call)
  from Cons.prems call have now: "now < d" and rest: "list_all (\<lambda>call. fst call < d) calls"
    by simp_all
  let ?lg = "xpnLog now source level args lg"
  from Cons.prems(1) have armed: "flushTimeout ?lg = Some d"
    by (simp add: flushTimeout_xpnLog)
  from Cons.prems(1) now
  have step: "xpnLog_burst (call # calls) (lg, st) = xpnLog_burst calls (?lg, st)"
    by (simp add: call timer_fires_pending)
  from Cons.IH [OF armed rest] show ?case
    unfolding step by (simp add: logQueue_xpnLog call)
qed

text \<open>
  C5. \<open>xpnLog\<close> arms the flush timer for the fixed delay of 100 ms only when no timer is
  pending; an enqueue while a timer is pending leaves that timer as it is. A burst of
  enqueues that all come before the timer armed by the first one is due ends with that one
  flush pending, due one full delay after the first enqueue, with nothing written yet and
  the entries queued in the order of the calls. An enqueue that comes once the timer has
  fired arms a new timer, one full delay after itself.
\<close>

theorem xpnLog_timer_not_restarted:
  "(flushTimeout lg = Some d \<longrightarrow> flushTimeout (xpnLog now source level args lg) = Some d) \<and>
   (flushTimeout lg = None \<longrightarrow>
      flushTimeout (xpnLog now source level args lg) = Some (now + 100)) \<and>
   (flushTimeout lg = None \<and> list_all (\<lambda>call. fst call < now + 100) rest \<longrightarrow>
      snd (xpnLog_burst ((now, source, level, args) # rest) (lg, st)) = st \<and>
      flushTimeout (fst (xpnLog_burst ((now, source, level, args) # rest) (lg, st)))
        = Some (now + 100) \<and>
      map le_t (logQueue (fst (xpnLog_burst ((now, source, level, args) # rest) (lg, st))))
        = map le_t (logQueue lg) @ now # map fst rest) \<and>
   (flushTimeout lg = Some d \<and> d \<le> now \<longrightarrow>
      flushTimeout (fst (xpnLog_burst [(now, source, level, args)] (lg, st))) = Some (now + 100))"
proof (intro conjI impI)
  assume "flushTimeout lg = Some d"
  then show "flushTimeout (xpnLog now source level args lg) = Some d"
    by (simp add: flushTimeout_xpnLog)
next
  assume "flushTimeout lg = None"
  then show "flushTimeout (xpnLog now source level args lg) = Some (now + 100)"
    by (simp add: flushTimeout_xpnLog)
next
  assume h: "flushTimeout lg = None \<and> list_all (\<lambda>call. fst call < now + 100) rest"
  let ?lg = "xpnLog now source level args lg"
  from h have armed: "flushTimeout ?lg = Some (now + 100)" by (simp add: flushTimeout_xpnLog)
  from h have step: "xpnLog_burst ((now, source, level, args) # rest) (lg, st)
      = xpnLog_burst rest (?lg, st)"
    by (simp add: timer_fires_none)
  from h have rest: "list_all (\<lambda>call. fst call < now + 100) rest" by simp
  note burst = xpnLog_burst_pending [OF armed rest, of st]
  from burst show "snd (xpnLog_burst ((now, source, level, args) # rest) (lg, st)) = st"
    unfolding step by simp
  from burst show "flushTimeout (fst (xpnLog_burst ((now, source, level, args) # rest) (lg, st)))
        = Some (now + 100)"
    unfolding step by simp
  from burst show "map le_t (logQueue (fst (xpnLog_burst ((now, source, level, args) # rest) (lg, st))))
        = map le_t (logQueue lg) @ now # map fst rest"
    unfolding step by (simp add: logQueue_xpnLog)
next
  assume "flushTimeout lg = Some d \<and> d \<le> now"
  then have "flushTimeout (fst (timer_fires now (lg, st))) = None"
    by (simp add: timer_fires_due)
  then show "flushTimeout (fst (xpnLog_burst [(now, source, level, args)] (lg, st))) = Some (now + 100)"
    by (simp add: flushTimeout_xpnLog)
qed

text \<open>The definitions that a run of the logger unfolds to at a concrete input.\<close>

lemmas logger_defs = xpnLog_def timer_fires_def flushLogs_def storage_get_logs_def
  storage_set_logs_def XPN_MAX_LOGS_def slice_last_def Let_def

theorem xpnLog_timer_not_restarted_witness:
  "flushTimeout \<lparr>logQueue = [], flushTimeout = None, isFlushing = False\<rparr> = None \<and>
   flushTimeout (xpnLog 0 ''content'' ''log'' [ArgOther ''a'']
      \<lparr>logQueue = [], flushTimeout = None, isFlushing = False\<rparr>) = Some 100 \<and>
   list_all (\<lambda>call. fst call < (0::int) + 100)
      [(50, ''content'', ''log'', [ArgOther ''b'']), (90, ''content'', ''warn'', [ArgNull])] \<and>
   xpnLog_burst [(0, ''content'', ''log'', [ArgOther ''a'']),
        (50, ''content'', ''log'', [ArgOther ''b'']), (90, ''content'', ''warn'', [ArgNull])]
      (\<lparr>logQueue = [], flushTimeout = None, isFlushing = False\<rparr>,
       \<lparr>available = True, stored_notes = None, stored_logs = None, writes = 0\<rparr>)
     = (\<lparr>logQueue = [\<lparr>le_t = 0, le_s = ''content'', le_l = ''log'', le_m = ''a''\<rparr>,
                      \<lparr>le_t = 50, le_s = ''content'', le_l = ''log'', le_m = ''b''\<rparr>,
                      \<lparr>le_t = 90, le_s = ''content'', le_l = ''warn'', le_m = ''null''\<rparr>],
         flushTimeout = Some 100, isFlushing = False\<rparr>,
        \<lparr>available = True, stored_notes = None, stored_logs = None, writes = 0\<rparr>) \<and>
   flushTimeout
      (xpnLog 90 ''content'' ''log'' [ArgOther ''b'']
        (xpnLog 0 ''content'' ''log'' [ArgOther ''a'']
          \<lparr>logQueue = [], flushTimeout = None, isFlushing = False\<rparr>)) = Some 100 \<and>
   (100::int) \<le> 180 \<and>
   xpnLog_burst [(180, ''content'', ''log'', [ArgOther ''c''])]
      ((xpnLog 90 ''content'' ''log'' [ArgOther ''b'']
        (xpnLog 0 ''content'' ''log'' [ArgOther ''a'']
          \<lparr>logQueue = [], flushTimeout = None, isFlushing = False\<rparr>)),
       \<lparr>available = True, stored_notes = None, stored_logs = None, writes = 0\<rparr>)
     = (\<lparr>logQueue = [\<lparr>le_t = 180, le_s = ''content'', le_l = ''log'', le_m = ''c''\<rparr>],
         flushTimeout = Some 280, isFlushing = False\<rparr>,
        \<lparr>available = True, stored_notes = None,
         stored_logs = Some [\<lparr>le_t = 0, le_s = ''content'', le_l = ''log'', le_m = ''a''\<rparr>,
                            \<lparr>le_t = 90, le_s = ''content'', le_l = ''log'', le_m = ''b''\<rparr>],
         writes = 1\<rparr>)"
  using xpnLog_timer_not_restarted [where lg = "\<lparr>logQueue = [], flushTimeout = None, isFlushing = False\<rparr>"
      and st = "\<lparr>available = True, stored_notes = None, stored_logs = None, writes = 0\<rparr>"
      and now = 0 and source = "''content''" and level = "''log''" and args = "[ArgOther ''a'']"
      and rest = "[(50, ''content'', ''log'', [ArgOther ''b'']), (90, ''content'', ''warn'', [ArgNull])]"]
    xpnLog_timer_not_restarted [where lg = "(xpnLog 90 ''content'' ''log'' [ArgOther ''b'']
        (xpnLog 0 ''content'' ''log'' [ArgOther ''a'']
          \<lparr>logQueue = [], flushTimeout = None, isFlushing = False\<rparr>))"
      and st = "\<lparr>available = True, stored_notes = None, stored_logs = None, writes = 0\<rparr>"
      and d = 100 and now = 180 and source = "''content''" and level = "''log''"
      and args = "[ArgOther ''c'']" and rest = "[]"]
  by (simp add: logger_defs)

theorem xpnLog_second_enqueue_keeps_deadline:
  "flushTimeout (fst (xpnLog_burst [(0, ''content'', ''log'', [ArgOther ''a'']),
        (50, ''content'', ''log'', [ArgOther ''b''])]
      (\<lparr>logQueue = [], flushTimeout = None, isFlushing = False\<rparr>,
       \<lparr>available = True, stored_notes = None, stored_logs = None, writes = 0\<rparr>)))
     = Some 100 \<and>
   flushTimeout (fst (xpnLog_burst [(0, ''content'', ''log'', [ArgOther ''a'']),
        (50, ''content'', ''log'', [ArgOther ''b''])]
      (\<lparr>logQueue = [], flushTimeout = None, isFlushing = False\<rparr>,
       \<lparr>available = True, stored_notes = None, stored_logs = None, writes = 0\<rparr>)))
     \<noteq> Some (50 + 100)"
  by (simp add: logger_defs)

subsection \<open>Flushing\<close>

text \<open>
  C4. When the queue is not empty, no flush is in flight and the store is reachable,
  \<open>flushLogs\<close> writes back the persisted list followed by the queued entries in their
  order, without its oldest entries beyond the most recent 1000, so the persisted list is then
  at most 1000 long. In every other state (empty queue, a flush in flight, store not
  reachable) the call writes nothing. So a flush never makes a persisted list of at most
  1000 entries longer than 1000.
\<close>

theorem flushLogs_appends_and_trims:
  "(logQueue lg \<noteq> [] \<and> \<not> isFlushing lg \<and> available st \<longrightarrow>
      stored_logs (snd (flushLogs during fin lg st)) =
        Some (drop (length (persisted_logs st @ logQueue lg) - 1000) (persisted_logs st @ logQueue lg)) \<and>
      length (persisted_logs (snd (flushLogs during fin lg st))) \<le> 1000) \<and>
   (logQueue lg = [] \<or> isFlushing lg \<or> \<not> available st \<longrightarrow>
      snd (flushLogs during fin lg st) = st) \<and>
   (length (persisted_logs st) \<le> 1000 \<longrightarrow>
      length (persisted_logs (snd (flushLogs during fin lg st))) \<le> 1000)"
  by (auto simp: flushLogs_def Let_def storage_get_logs_def storage_set_logs_def persisted_logs_def
        XPN_MAX_LOGS_def slice_last_def split: option.splits)

theorem flushLogs_appends_and_trims_witness:
  "logQueue
     \<lparr>logQueue = [\<lparr>le_t = 7, le_s = ''content'', le_l = ''log'', le_m = ''a''\<rparr>,
        \<lparr>le_t = 8, le_s = ''popup'', le_l = ''warn'', le_m = ''b''\<rparr>],
       flushTimeout = Some 107, isFlushing = False\<rparr> \<noteq> [] \<and>
   available
     \<lparr>available = True, stored_notes = None,
       stored_logs = Some (replicate 999 \<lparr>le_t = 1, le_s = ''content'', le_l = ''log'', le_m = ''old''\<rparr>),
       writes = 0\<rparr> \<and>
   stored_logs (snd (flushLogs (\<lambda>lg. lg) 120
     \<lparr>logQueue = [\<lparr>le_t = 7, le_s = ''content'', le_l = ''log'', le_m = ''a''\<rparr>,
        \<lparr>le_t = 8, le_s = ''popup'', le_l = ''warn'', le_m = ''b''\<rparr>],
       flushTimeout = Some 107, isFlushing = False\<rparr>
     \<lparr>available = True, stored_notes = None,
       stored_logs = Some (replicate 999 \<lparr>le_t = 1, le_s = ''content'', le_l = ''log'', le_m = ''old''\<rparr>),
       writes = 0\<rparr>)) =
     Some (replicate 998 \<lparr>le_t = 1, le_s = ''content'', le_l = ''log'', le_m = ''old''\<rparr> @
           [\<lparr>le_t = 7, le_s = ''content'', le_l = ''log'', le_m = ''a''\<rparr>,
            \<lparr>le_t = 8, le_s = ''popup'', le_l = ''warn'', le_m = ''b''\<rparr>]) \<and>
   isFlushing
     \<lparr>logQueue = [\<lparr>le_t = 7, le_s = ''content'', le_l = ''log'', le_m = ''a''\<rparr>,
        \<lparr>le_t = 8, le_s = ''popup'', le_l = ''warn'', le_m = ''b''\<rparr>],
       flushTimeout = Some 107, isFlushing = True\<rparr> \<and>
   snd (flushLogs (\<lambda>lg. lg) 120
     \<lparr>logQueue = [\<lparr>le_t = 7, le_s = ''content'', le_l = ''log'', le_m = ''a''\<rparr>,
        \<lparr>le_t = 8, le_s = ''popup'', le_l = ''warn'', le_m = ''b''\<rparr>],
       flushTimeout = Some 107, isFlushing = True\<rparr>
     \<lparr>available = True, stored_notes = None,
       stored_logs = Some (replicate 999 \<lparr>le_t = 1, le_s = ''content'', le_l = ''log'', le_m = ''old''\<rparr>),
       writes = 0\<rparr>) =
     \<lparr>available = True, stored_notes = None,
       stored_logs = Some (replicate 999 \<lparr>le_t = 1, le_s = ''content'', le_l = ''log'', le_m = ''old''\<rparr>),
       writes = 0\<rparr> \<and>
   length (persisted_logs
     \<lparr>available = True, stored_notes = None,
       stored_logs = Some (replicate 999 \<lparr>le_t = 1, le_s = ''content'', le_l = ''log'', le_m = ''old''\<rparr>),
       writes = 0\<rparr>) \<le> 1000 \<and>
   length (persisted_logs (snd (flushLogs (\<lambda>lg. lg) 120
     \<lparr>logQueue = [\<lparr>le_t = 7, le_s = ''content'', le_l = ''log'', le_m = ''a''\<rparr>,
        \<lparr>le_t = 8, le_s = ''popup'', le_l = ''warn'', le_m = ''b''\<rparr>],
       flushTimeout = Some 107, isFlushing = False\<rparr>
     \<lparr>available = True, stored_notes = None,
       stored_logs = Some (replicate 999 \<lparr>le_t = 1, le_s = ''content'', le_l = ''log'', le_m = ''old''\<rparr>),
       writes = 0\<rparr>))) \<le> 1000"
  using flushLogs_appends_and_trims [where during = "\<lambda>lg. lg" and fin = 120
      and lg = "\<lparr>logQueue = [\<lparr>le_t = 7, le_s = ''content'', le_l = ''log'', le_m = ''a''\<rparr>,
        \<lparr>le_t = 8, le_s = ''popup'', le_l = ''warn'', le_m = ''b''\<rparr>],
       flushTimeout = Some 107, isFlushing = False\<rparr>"
      and st = "\<lparr>available = True, stored_notes = None,
       stored_logs = Some (replicate 999 \<lparr>le_t = 1, le_s = ''content'', le_l = ''log'', le_m = ''old''\<rparr>),
       writes = 0\<rparr>"]
    flushLogs_appends_and_trims [where during = "\<lambda>lg. lg" and fin = 120
      and lg = "\<lparr>logQueue = [\<lparr>le_t = 7, le_s = ''content'', le_l = ''log'', le_m = ''a''\<rparr>,
        \<lparr>le_t = 8, le_s = ''popup'', le_l = ''warn'', le_m = ''b''\<rparr>],
       flushTimeout = Some 107, isFlushing = True\<rparr>"
      and st = "\<lparr>available = True, stored_notes = None,
       stored_logs = Some (replicate 999 \<lparr>le_t = 1, le_s = ''content'', le_l = ''log'', le_m = ''old''\<rparr>),
       writes = 0\<rparr>"]
  by (simp add: persisted_logs_def)

end
